theory Spec2Isabelle
  imports Complex_Main "HOL-Library.Sublist" "HOL-Library.AList"
begin

section \<open>Configuration (src/core/config.py)\<close>

text \<open>
  A \<open>pathlib\<close> path is kept as its parts together with the flag that tells an absolute
  path from a relative one. Two paths are equal exactly when their parts and flags are:
  that is the comparison \<open>project_agents != user_agents\<close> of the workspace manager.
\<close>

datatype path = Abs "string list" | Rel "string list"

record claude_config =
  cli_path :: string
  max_concurrent :: int
  default_timeout :: int

record workspace_config =
  base_dir :: path
  use_worktrees :: bool
  cleanup_on_exit :: bool
  worktree_prefix :: string

record research_config =
  claude :: claude_config
  workspace :: workspace_config
  dry_run :: bool
  agent_dir :: path

text \<open>The numeric range check of \<open>ResearchConfig.validate\<close> on \<open>claude.max_concurrent\<close>;
  \<open>get_config\<close> and \<open>set_config\<close> run it on every configuration they hand out.\<close>

definition validate_max_concurrent :: "research_config \<Rightarrow> bool" where
  "validate_max_concurrent cfg \<longleftrightarrow>
     0 < max_concurrent (claude cfg) \<and> max_concurrent (claude cfg) \<le> 10"

section \<open>Exceptions (src/core/exceptions.py)\<close>

text \<open>
  The exceptions the modelled code can see. \<open>ClaudeTimeoutError\<close> carries its message and
  \<open>timeout_seconds\<close>; \<open>OSError\<close> stands for the operating-system errors raised by process
  creation and file operations, \<open>ValueError\<close> for the one raised by the semaphore
  constructor, \<open>OverflowError\<close> for the one raised when an integer is too large to be
  converted to a float. \<open>BodyError\<close> is an exception raised by a caller's own code.
\<close>

datatype exn =
    ClaudeTimeoutError string int
  | WorkspaceError string
  | OSError string
  | ValueError string
  | OverflowError string
  | BodyError string

section \<open>The execution interface (src/claude/cli_interface.py)\<close>

subsection \<open>Strings\<close>

text \<open>\<open>' '.join(cmd)\<close>.\<close>

fun join_sp :: "string list \<Rightarrow> string" where
  "join_sp [] = []"
| "join_sp [x] = x"
| "join_sp (x # y # ys) = x @ '' '' @ join_sp (y # ys)"

text \<open>The decimal rendering of an integer inside an f-string.\<close>

definition digit_char :: "nat \<Rightarrow> char" where
  "digit_char d = (''0123456789'') ! d"

fun str_nat :: "nat \<Rightarrow> string" where
  "str_nat n = (if n < 10 then [digit_char n] else str_nat (n div 10) @ [digit_char (n mod 10)])"

declare str_nat.simps [simp del]

definition str_int :: "int \<Rightarrow> string" where
  "str_int i = (if i < 0 then ''-'' @ str_nat (nat (- i)) else str_nat (nat i))"


subsection \<open>Results and processes\<close>

record claude_result =
  success :: bool
  result_output :: string
  error :: string
  exit_code :: int
  execution_time :: real
  command :: string
  result_workspace :: "path option"

text \<open>
  What a spawned process does when nobody interferes with it. Instants are seconds after
  the spawn. \<open>exit_at\<close> is the instant at which the process exits by itself (\<open>None\<close>: it never
  does) and \<open>return_code\<close> the code it exits with then. The process holds the write ends of
  its two output pipes until it dies; \<open>pipes_free_at\<close> is the instant from which no other
  process (a descendant that inherited them) holds a write end any more: \<open>Some 0\<close> when no
  other process ever does, \<open>None\<close> when one keeps a pipe open for ever. \<open>stdout_bytes\<close> and
  \<open>stderr_bytes\<close> are what the pipes deliver up to their end of file.
\<close>

record process =
  exit_at :: "real option"
  return_code :: int
  pipes_free_at :: "real option"
  stdout_bytes :: string
  stderr_bytes :: string

text \<open>Process creation fails with an exception, or it yields a process.\<close>

datatype proc_behaviour =
    SpawnFails exn
  | Starts process

text \<open>
  The operations \<open>execute\<close> performs on the operating system, in order:
  \<open>create_subprocess_exec\<close>, a \<open>process.communicate()\<close> that returned, \<open>process.kill()\<close>, and
  a \<open>process.wait()\<close> that returned.
\<close>

datatype proc_event =
    Spawn "string list" "path option" "string \<rightharpoonup> string"
  | Communicate
  | Kill
  | Reap

text \<open>
  What the surroundings supply to one call: the inherited environment \<open>os.environ\<close>, the
  permissive decoder \<open>bytes.decode('utf-8', errors='replace')\<close>, the two readings of the
  event-loop clock, and the behaviour of the process.
\<close>

record call_env =
  environ :: "string \<rightharpoonup> string"
  decode :: "string \<Rightarrow> string"
  start_time :: real
  end_time :: real
  behaviour :: proc_behaviour

definition build_command :: "research_config \<Rightarrow> string \<Rightarrow> string list" where
  "build_command cfg prompt = [cli_path (claude cfg), ''-p'', prompt]"

text \<open>\<open>timeout or self.config.claude.default_timeout\<close>: \<open>None\<close> and \<open>0\<close> are the falsy
  values of an optional integer.\<close>

definition effective_timeout :: "research_config \<Rightarrow> int option \<Rightarrow> int" where
  "effective_timeout cfg timeout =
     (case timeout of
        None \<Rightarrow> default_timeout (claude cfg)
      | Some t \<Rightarrow> if t = 0 then default_timeout (claude cfg) else t)"

subsection \<open>Waiting for the process\<close>

text \<open>
  \<open>process.communicate()\<close> reads both pipes to their end of file and then awaits the exit
  of the process; it returns at the later of the two instants, and never when the process
  does not exit by itself or a pipe is never closed.
\<close>

definition communicate_at :: "process \<Rightarrow> real option" where
  "communicate_at p =
     (case exit_at p of
        None \<Rightarrow> None
      | Some e \<Rightarrow> (case pipes_free_at p of None \<Rightarrow> None | Some f \<Rightarrow> Some (max e f)))"

definition communicate_within :: "process \<Rightarrow> int \<Rightarrow> bool" where
  "communicate_within p t \<longleftrightarrow>
     (case communicate_at p of None \<Rightarrow> False | Some c \<Rightarrow> c < real_of_int t)"

text \<open>
  The event loop sets the timer of \<open>wait_for\<close> with \<open>loop.time() + timeout\<close>, which converts
  the integer to a float: an integer that rounds to \<open>2 ^ 1024\<close> or more, that is one from
  \<open>2 ^ 1024 - 2 ^ 970\<close> on, raises \<open>OverflowError\<close>.
\<close>

definition timer_accepts :: "int \<Rightarrow> bool" where
  "timer_accepts t \<longleftrightarrow> t < 2 ^ 1024 - 2 ^ 970"

text \<open>
  \<open>asyncio.wait_for(process.communicate(), timeout=t)\<close>. A timeout that is not positive
  cancels the wait at once; otherwise the timer is set, which may be refused, and the
  wait ends with \<open>communicate()\<close> returning before the timer fires or with the timer firing.
\<close>

datatype wait_outcome = Returned | TimedOut | TimerRefused

definition wait_for :: "process \<Rightarrow> int \<Rightarrow> wait_outcome" where
  "wait_for p t =
     (if t \<le> 0 then TimedOut
      else if \<not> timer_accepts t then TimerRefused
      else if communicate_within p t then Returned
      else TimedOut)"

text \<open>The process has exited by itself by the instant at which a timeout of \<open>t\<close> seconds
  ends the wait (at once when \<open>t\<close> is not positive).\<close>

definition exited_by :: "process \<Rightarrow> int \<Rightarrow> bool" where
  "exited_by p t \<longleftrightarrow>
     (case exit_at p of None \<Rightarrow> False | Some e \<Rightarrow> e \<le> max 0 (real_of_int t))"

text \<open>
  \<open>await process.wait()\<close> after \<open>process.kill()\<close>. When the process had already exited, its
  return code is known and the wait returns at once. Otherwise the kill ends the process,
  and the wait returns once the transport is finished, which needs both pipes
  disconnected: it never returns while another process keeps a pipe open.
\<close>

definition wait_returns :: "process \<Rightarrow> int \<Rightarrow> bool" where
  "wait_returns p t \<longleftrightarrow> exited_by p t \<or> pipes_free_at p \<noteq> None"

text \<open>
  The f-string of the timeout message renders the timeout in decimal; the interpreter
  refuses to render an integer of more than 4300 digits and raises \<open>ValueError\<close>.
\<close>

definition str_accepts :: "int \<Rightarrow> bool" where
  "str_accepts t \<longleftrightarrow> \<bar>t\<bar> < 10 ^ 4300"

text \<open>
  \<open>ClaudeInterface.execute\<close>. The result is the list of operating-system operations it
  performed and what became of the call: \<open>None\<close> when it never returns, otherwise the
  exception it raised (\<open>Inl\<close>) or the \<open>ClaudeResult\<close> it returned (\<open>Inr\<close>). The outer handler
  logs and re-raises, so it changes neither.
\<close>

definition execute ::
  "research_config \<Rightarrow> call_env \<Rightarrow> string \<Rightarrow> path option \<Rightarrow> int option \<Rightarrow>
   (string \<rightharpoonup> string) option \<Rightarrow> proc_event list \<times> (exn + claude_result) option" where
  "execute cfg ce prompt ws timeout env_vars =
     (let cmd = build_command cfg prompt;
          env = (case env_vars of None \<Rightarrow> environ ce | Some ev \<Rightarrow> environ ce ++ ev);
          t = effective_timeout cfg timeout
      in if dry_run cfg then
           ([], Some (Inr \<lparr> success = True,
                            result_output = ''[DRY RUN] Would execute: '' @ join_sp cmd,
                            error = '''',
                            exit_code = 0,
                            execution_time = 1 / 10,
                            command = join_sp cmd,
                            result_workspace = ws \<rparr>))
         else
           (case behaviour ce of
              SpawnFails e \<Rightarrow> ([], Some (Inl e))
            | Starts p \<Rightarrow>
                (case wait_for p t of
                   TimerRefused \<Rightarrow>
                     ([Spawn cmd ws env],
                      Some (Inl (OverflowError ''int too large to convert to float'')))
                 | TimedOut \<Rightarrow>
                     (if \<not> wait_returns p t then ([Spawn cmd ws env, Kill], None)
                      else if \<not> str_accepts t then
                        ([Spawn cmd ws env, Kill, Reap],
                         Some (Inl (ValueError
                                 ''Exceeds the limit (4300 digits) for integer string conversion'')))
                      else
                        ([Spawn cmd ws env, Kill, Reap],
                         Some (Inl (ClaudeTimeoutError
                                 (''Claude execution timed out after '' @ str_int t @ ''s'') t))))
                 | Returned \<Rightarrow>
                     ([Spawn cmd ws env, Communicate],
                      Some (Inr \<lparr> success = (return_code p = 0),
                                  result_output = decode ce (stdout_bytes p),
                                  error = decode ce (stderr_bytes p),
                                  exit_code = return_code p,
                                  execution_time = end_time ce - start_time ce,
                                  command = join_sp cmd,
                                  result_workspace = ws \<rparr>)))))"

text \<open>
  Whether a list of operations leaves a process behind that nobody has seen end: one was
  spawned, and neither \<open>communicate()\<close> nor \<open>wait()\<close> has returned since.
\<close>

fun alive_after :: "bool \<Rightarrow> proc_event list \<Rightarrow> bool" where
  "alive_after a [] = a"
| "alive_after a (Spawn cmd ws env # evs) = alive_after True evs"
| "alive_after a (Communicate # evs) = alive_after False evs"
| "alive_after a (Kill # evs) = alive_after a evs"
| "alive_after a (Reap # evs) = alive_after False evs"

definition proc_alive :: "proc_event list \<Rightarrow> bool" where
  "proc_alive evs = alive_after False evs"

subsection \<open>Batches under a semaphore\<close>

text \<open>\<open>max_concurrent or self.config.claude.max_concurrent\<close>.\<close>

definition effective_max_concurrent :: "research_config \<Rightarrow> int option \<Rightarrow> int" where
  "effective_max_concurrent cfg mc =
     (case mc of
        None \<Rightarrow> max_concurrent (claude cfg)
      | Some n \<Rightarrow> if n = 0 then max_concurrent (claude cfg) else n)"

text \<open>\<open>asyncio.Semaphore(value)\<close>: the constructor refuses a negative value.\<close>

definition semaphore_new :: "int \<Rightarrow> exn + nat" where
  "semaphore_new v =
     (if v < 0 then Inl (ValueError ''Semaphore initial value must be >= 0'') else Inr (nat v))"

text \<open>
  One task \<open>run_with_semaphore(prompt, workspace)\<close> of the batch is waiting for a permit,
  or inside \<open>async with semaphore\<close> awaiting \<open>execute\<close>, which has performed the listed
  operations so far, or finished with the operations its \<open>execute\<close> performed and the
  exception or the result of that call.
\<close>

datatype task = Waiting | Running "proc_event list" | Done "proc_event list" "exn + claude_result"

record batch_state =
  permits :: nat
  slots :: "task list"

text \<open>The call \<open>self.execute(prompt, workspace)\<close> for entry \<open>i\<close> of the batch; \<open>ces i\<close> is what
  the surroundings do for that call.\<close>

definition entry_call ::
  "research_config \<Rightarrow> (nat \<Rightarrow> call_env) \<Rightarrow> (string \<times> path option) list \<Rightarrow> nat \<Rightarrow>
   proc_event list \<times> (exn + claude_result) option" where
  "entry_call cfg ces prompts i =
     execute cfg (ces i) (fst (prompts ! i)) (snd (prompts ! i)) None None"

text \<open>
  The event loop interleaves the tasks. A task enters the semaphore only while a permit
  is left and takes it; inside, its \<open>execute\<close> performs its operations one after the
  other; when that call has returned or raised, leaving the \<open>async with\<close> block gives the
  permit back. A call that never returns never leaves the block. An event that is not
  enabled has no successor state.
\<close>

datatype sched_event = Acquire nat | Advance nat | Finish nat

fun batch_step ::
  "research_config \<Rightarrow> (nat \<Rightarrow> call_env) \<Rightarrow> (string \<times> path option) list \<Rightarrow>
   sched_event \<Rightarrow> batch_state \<Rightarrow> batch_state option" where
  "batch_step cfg ces prompts (Acquire i) s =
     (if i < length (slots s) \<and> slots s ! i = Waiting \<and> 0 < permits s
      then Some (s\<lparr> permits := permits s - 1, slots := (slots s)[i := Running []] \<rparr>)
      else None)"
| "batch_step cfg ces prompts (Advance i) s =
     (if i < length (slots s) then
        (case slots s ! i of
           Running ops \<Rightarrow>
             (if length ops < length (fst (entry_call cfg ces prompts i))
              then Some (s\<lparr> slots := (slots s)
                            [i := Running (take (Suc (length ops))
                                            (fst (entry_call cfg ces prompts i)))] \<rparr>)
              else None)
         | Waiting \<Rightarrow> None
         | Done ops r \<Rightarrow> None)
      else None)"
| "batch_step cfg ces prompts (Finish i) s =
     (if i < length (slots s) then
        (case slots s ! i of
           Running ops \<Rightarrow>
             (if length ops < length (fst (entry_call cfg ces prompts i)) then None
              else (case snd (entry_call cfg ces prompts i) of
                      None \<Rightarrow> None
                    | Some r \<Rightarrow>
                        Some (s\<lparr> permits := permits s + 1,
                                 slots := (slots s)[i := Done ops r] \<rparr>)))
         | Waiting \<Rightarrow> None
         | Done ops r \<Rightarrow> None)
      else None)"

fun batch_run ::
  "research_config \<Rightarrow> (nat \<Rightarrow> call_env) \<Rightarrow> (string \<times> path option) list \<Rightarrow>
   sched_event list \<Rightarrow> batch_state \<Rightarrow> batch_state option" where
  "batch_run cfg ces prompts [] s = Some s"
| "batch_run cfg ces prompts (e # es) s =
     (case batch_step cfg ces prompts e s of
        None \<Rightarrow> None
      | Some s' \<Rightarrow> batch_run cfg ces prompts es s')"

text \<open>The number of calls of \<open>execute\<close> in flight.\<close>

fun is_running :: "task \<Rightarrow> bool" where
  "is_running (Running ops) = True"
| "is_running Waiting = False"
| "is_running (Done ops r) = False"

definition in_flight :: "batch_state \<Rightarrow> nat" where
  "in_flight s = length (filter is_running (slots s))"

text \<open>The number of processes that the batch has spawned and not seen end, whether their
  call of \<open>execute\<close> is still in flight or not.\<close>

fun task_alive :: "task \<Rightarrow> bool" where
  "task_alive Waiting = False"
| "task_alive (Running ops) = proc_alive ops"
| "task_alive (Done ops r) = proc_alive ops"

definition live_processes :: "batch_state \<Rightarrow> nat" where
  "live_processes s = length (filter task_alive (slots s))"

text \<open>\<open>execute_batch\<close> up to the point where the tasks exist: the semaphore is built from
  the effective bound, one task per entry.\<close>

definition batch_init ::
  "research_config \<Rightarrow> (string \<times> path option) list \<Rightarrow> int option \<Rightarrow> exn + batch_state" where
  "batch_init cfg prompts mc =
     (case semaphore_new (effective_max_concurrent cfg mc) of
        Inl e \<Rightarrow> Inl e
      | Inr n \<Rightarrow> Inr \<lparr> permits = n, slots = replicate (length prompts) Waiting \<rparr>)"

text \<open>\<open>asyncio.gather(*tasks, return_exceptions=True)\<close> returns once every task is done,
  with the value or the exception of each task in the order of the tasks.\<close>

fun task_outcome :: "task \<Rightarrow> (exn + claude_result) option" where
  "task_outcome (Done ops r) = Some r"
| "task_outcome Waiting = None"
| "task_outcome (Running ops) = None"

definition gather :: "batch_state \<Rightarrow> (exn + claude_result) list option" where
  "gather s = those (map task_outcome (slots s))"

text \<open>The bound as the specification words it: the argument, or the configured default
  when no argument is given.\<close>

definition spec_concurrency_bound :: "research_config \<Rightarrow> int option \<Rightarrow> int" where
  "spec_concurrency_bound cfg mc =
     (case mc of None \<Rightarrow> max_concurrent (claude cfg) | Some n \<Rightarrow> n)"

text \<open>The batch after it has followed a schedule from its start.\<close>

definition batch_after ::
  "research_config \<Rightarrow> (nat \<Rightarrow> call_env) \<Rightarrow> (string \<times> path option) list \<Rightarrow> int option \<Rightarrow>
   sched_event list \<Rightarrow> batch_state option" where
  "batch_after cfg ces prompts mc evs =
     (case batch_init cfg prompts mc of
        Inl e \<Rightarrow> None
      | Inr s0 \<Rightarrow> batch_run cfg ces prompts evs s0)"

text \<open>Two auxiliary notions for the proofs: the slots agree with the calls of their own
  entries, and the amount of work a batch still has to do.\<close>

definition slot_ok ::
  "research_config \<Rightarrow> (nat \<Rightarrow> call_env) \<Rightarrow> (string \<times> path option) list \<Rightarrow> task list \<Rightarrow> bool" where
  "slot_ok cfg ces prompts ts \<longleftrightarrow>
     (\<forall>i < length ts.
        (\<forall>ops. ts ! i = Running ops \<longrightarrow>
           ops = take (length ops) (fst (entry_call cfg ces prompts i))) \<and>
        (\<forall>ops r. ts ! i = Done ops r \<longrightarrow>
           ops = fst (entry_call cfg ces prompts i) \<and>
           snd (entry_call cfg ces prompts i) = Some r))"

fun weight :: "task \<Rightarrow> nat" where
  "weight Waiting = 5"
| "weight (Running ops) = Suc (3 - length ops)"
| "weight (Done ops r) = 0"

definition pending :: "batch_state \<Rightarrow> nat" where
  "pending s = sum_list (map weight (slots s))"

section \<open>Sample inputs\<close>

definition sample_config :: research_config where
  "sample_config =
     \<lparr> claude = \<lparr> cli_path = ''claude'', max_concurrent = 3, default_timeout = 300 \<rparr>,
       workspace = \<lparr> base_dir = Abs [''tmp'', ''research_workspaces''], use_worktrees = True,
                     cleanup_on_exit = True, worktree_prefix = ''research_'' \<rparr>,
       dry_run = False,
       agent_dir = Abs [''home'', ''u'', ''.claude'', ''agents''] \<rparr>"

text \<open>A configuration whose default timeout the timer refuses.\<close>

definition huge_timeout_config :: research_config where
  "huge_timeout_config =
     sample_config \<lparr> claude := \<lparr> cli_path = ''claude'', max_concurrent = 3,
                                  default_timeout = 2 ^ 1024 \<rparr> \<rparr>"

text \<open>
  Four processes: one that exits after a second with a given code, its pipes held by
  nobody else; one that never exits by itself; one that exits after a second while a
  descendant keeps its pipes open for ever; one that never exits and has such a
  descendant.
\<close>

definition exits_with :: "int \<Rightarrow> process" where
  "exits_with c =
     \<lparr> exit_at = Some 1, return_code = c, pipes_free_at = Some 0,
       stdout_bytes = ''ok'', stderr_bytes = ''no'' \<rparr>"

definition never_exits :: process where
  "never_exits =
     \<lparr> exit_at = None, return_code = 0, pipes_free_at = Some 0,
       stdout_bytes = '''', stderr_bytes = '''' \<rparr>"

definition exits_pipes_held :: "int \<Rightarrow> process" where
  "exits_pipes_held c =
     \<lparr> exit_at = Some 1, return_code = c, pipes_free_at = None,
       stdout_bytes = ''ok'', stderr_bytes = ''no'' \<rparr>"


definition sample_call :: "process \<Rightarrow> call_env" where
  "sample_call p =
     \<lparr> environ = Map.empty, decode = (\<lambda>bs. bs), start_time = 0, end_time = 2,
       behaviour = Starts p \<rparr>"

definition sample_prompts :: "(string \<times> path option) list" where
  "sample_prompts =
     [(''one'', Some (Abs [''w'', ''a''])), (''two'', None), (''three'', Some (Abs [''w'', ''c'']))]"

definition sample_calls :: "nat \<Rightarrow> call_env" where
  "sample_calls i = sample_call (if i = 1 then never_exits else exits_with (int i))"

definition idle_calls :: "nat \<Rightarrow> call_env" where
  "idle_calls i = sample_call never_exits"

section \<open>Properties of the execution interface\<close>

lemma effective_timeout_cases:
  "effective_timeout cfg timeout =
     (if timeout = None \<or> timeout = Some 0 then default_timeout (claude cfg) else the timeout)"
  by (cases timeout) (simp_all add: effective_timeout_def)

lemma timer_accepts_small: "t \<le> 1000000 \<Longrightarrow> timer_accepts t"
  by (simp add: timer_accepts_def)

lemma str_accepts_small: "\<bar>t\<bar> \<le> 1000000 \<Longrightarrow> str_accepts t"
proof -
  assume a: "\<bar>t\<bar> \<le> 1000000"
  have b: "(1000000::int) = 10 ^ 6" by simp
  have c: "(10::int) ^ 6 < 10 ^ 4300" by (rule power_strict_increasing) simp_all
  from a have "\<bar>t\<bar> \<le> 10 ^ 6" by (simp only: b)
  from this c have "\<bar>t\<bar> < 10 ^ 4300" by (rule order_le_less_trans)
  then show ?thesis unfolding str_accepts_def .
qed

lemma execute_trace_length:
  "length (fst (execute cfg ce prompt ws timeout env_vars)) \<le> 3"
  by (simp add: execute_def Let_def split: proc_behaviour.splits wait_outcome.splits)

lemma execute_returned_no_process:
  assumes "timer_accepts (effective_timeout cfg timeout)"
    and "snd (execute cfg ce prompt ws timeout env_vars) = Some r"
  shows "\<not> proc_alive (fst (execute cfg ce prompt ws timeout env_vars))"
  using assms
  by (auto simp add: execute_def Let_def proc_alive_def wait_for_def
        split: proc_behaviour.splits wait_outcome.splits if_splits)

lemma execute_result_carries_call:
  assumes "snd (execute cfg ce prompt ws timeout env_vars) = Some (Inr r)"
  shows "command r = join_sp [cli_path (claude cfg), ''-p'', prompt] \<and> result_workspace r = ws"
  using assms
  by (auto simp add: execute_def Let_def build_command_def
        split: proc_behaviour.splits wait_outcome.splits if_splits)


text \<open>
  Claim C8, as amended. When the process spawned by \<open>execute\<close> exits by itself with code
  \<open>c\<close> and \<open>communicate()\<close> returns before the effective timeout elapses (the process has
  exited and nobody holds its pipes open any more by then, the timeout being positive
  and one the timer accepts), the call returns a \<open>ClaudeResult\<close> and raises nothing;
  \<open>success\<close> is \<open>c = 0\<close>, \<open>exit_code\<close> is \<open>c\<close>, and \<open>error\<close> is the decoded standard error, in
  particular when \<open>c\<close> is not zero.
\<close>

theorem execute_exit_returns_result:
  assumes "\<not> dry_run cfg" and "behaviour ce = Starts p"
    and "exit_at p = Some e" and "return_code p = c" and "pipes_free_at p = Some f"
    and "max e f < real_of_int (effective_timeout cfg timeout)"
    and "0 < effective_timeout cfg timeout"
    and "timer_accepts (effective_timeout cfg timeout)"
  shows "\<exists>r. snd (execute cfg ce prompt ws timeout env_vars) = Some (Inr r) \<and>
             success r = (c = 0) \<and> exit_code r = c \<and>
             error r = decode ce (stderr_bytes p) \<and>
             result_output r = decode ce (stdout_bytes p)"
  using assms
  by (simp add: execute_def Let_def wait_for_def communicate_within_def communicate_at_def)

text \<open>
  Claim C8 as stated fails: a process that exits by itself with code \<open>3\<close> after a second,
  while a descendant keeps its pipes open, makes \<open>communicate()\<close> wait until the timeout of
  five seconds elapses; \<open>execute\<close> then raises \<open>ClaudeTimeoutError\<close> and returns no result.
\<close>

theorem execute_exit_pipes_held_counterexample:
  "exit_at (exits_pipes_held 3) = Some 1 \<and> return_code (exits_pipes_held 3) = 3 \<and>
   execute sample_config (sample_call (exits_pipes_held 3)) ''hi'' None (Some 5) None =
     ([Spawn [''claude'', ''-p'', ''hi''] None Map.empty, Kill, Reap],
      Some (Inl (ClaudeTimeoutError ''Claude execution timed out after 5s'' 5)))"
  by (simp add: execute_def Let_def wait_for_def communicate_within_def communicate_at_def
        wait_returns_def exited_by_def timer_accepts_small str_accepts_small
        effective_timeout_def
        build_command_def sample_config_def sample_call_def exits_pipes_held_def
        str_int_def str_nat.simps digit_char_def)




theorem execute_exit_returns_result_witness:
  "\<not> dry_run sample_config \<and>
   behaviour (sample_call (exits_with 2)) = Starts (exits_with 2) \<and>
   exit_at (exits_with 2) = Some 1 \<and> return_code (exits_with 2) = 2 \<and>
   pipes_free_at (exits_with 2) = Some 0 \<and>
   max 1 0 < real_of_int (effective_timeout sample_config (Some 5)) \<and>
   0 < effective_timeout sample_config (Some 5) \<and>
   timer_accepts (effective_timeout sample_config (Some 5)) \<and>
   (\<exists>r. snd (execute sample_config (sample_call (exits_with 2)) ''hi'' None (Some 5) None)
          = Some (Inr r) \<and>
        \<not> success r \<and> exit_code r = 2 \<and> error r = ''no'')"
proof -
  have a: "\<not> dry_run sample_config" by (simp add: sample_config_def)
  have b: "behaviour (sample_call (exits_with 2)) = Starts (exits_with 2)"
    by (simp add: sample_call_def)
  have c: "exit_at (exits_with 2) = Some 1" "return_code (exits_with 2) = 2"
    "pipes_free_at (exits_with 2) = Some 0"
    by (simp_all add: exits_with_def)
  have t: "effective_timeout sample_config (Some 5) = 5" by (simp add: effective_timeout_def)
  have d: "max 1 0 < real_of_int (effective_timeout sample_config (Some 5))"
    "0 < effective_timeout sample_config (Some 5)"
    "timer_accepts (effective_timeout sample_config (Some 5))"
    by (simp_all add: t timer_accepts_small)
  from execute_exit_returns_result[OF a b c d, of "''hi''" None None]
  have "\<exists>r. snd (execute sample_config (sample_call (exits_with 2)) ''hi'' None (Some 5) None)
          = Some (Inr r) \<and>
        \<not> success r \<and> exit_code r = 2 \<and> error r = ''no''"
    by (auto simp add: sample_call_def exits_with_def)
  with a b c d show ?thesis by simp
qed


section \<open>Properties of batches\<close>

lemma length_filter_update:
  "i < length xs \<Longrightarrow>
   length (filter P (xs[i := y])) + (if P (xs ! i) then 1 else 0) =
   length (filter P xs) + (if P y then 1 else 0)"
proof (induction xs arbitrary: i)
  case Nil
  then show ?case by simp
next
  case (Cons x xs)
  show ?case
  proof (cases i)
    case 0
    then show ?thesis by simp
  next
    case (Suc j)
    with Cons.prems have "j < length xs" by simp
    from Cons.IH[OF this] Suc show ?thesis by (auto split: if_splits)
  qed
qed

lemma sum_list_map_update:
  fixes f :: "'a \<Rightarrow> nat"
  shows "i < length xs \<Longrightarrow>
   sum_list (map f (xs[i := y])) + f (xs ! i) = sum_list (map f xs) + f y"
proof (induction xs arbitrary: i)
  case Nil
  then show ?case by simp
next
  case (Cons x xs)
  show ?case
  proof (cases i)
    case 0
    then show ?thesis by simp
  next
    case (Suc j)
    with Cons.prems have "j < length xs" by simp
    from Cons.IH[OF this] Suc show ?thesis by simp
  qed
qed

lemma length_filter_mono:
  "\<forall>x \<in> set xs. P x \<longrightarrow> Q x \<Longrightarrow> length (filter P xs) \<le> length (filter Q xs)"
  by (induction xs) auto

lemma filter_pos_nth:
  "0 < length (filter P xs) \<Longrightarrow> \<exists>i < length xs. P (xs ! i)"
proof -
  assume "0 < length (filter P xs)"
  then have "filter P xs \<noteq> []" by simp
  then obtain x where "x \<in> set xs" and "P x" by (auto simp add: filter_empty_conv)
  then show ?thesis by (auto simp add: in_set_conv_nth)
qed

lemma batch_step_Acquire:
  "batch_step cfg ces prompts (Acquire i) s = Some s' \<Longrightarrow>
   i < length (slots s) \<and> slots s ! i = Waiting \<and> 0 < permits s \<and>
   s' = s\<lparr> permits := permits s - 1, slots := (slots s)[i := Running []] \<rparr>"
  by (auto split: if_splits)

lemma batch_step_Advance:
  "batch_step cfg ces prompts (Advance i) s = Some s' \<Longrightarrow>
   \<exists>ops. i < length (slots s) \<and> slots s ! i = Running ops \<and>
     length ops < length (fst (entry_call cfg ces prompts i)) \<and>
     s' = s\<lparr> slots := (slots s)
             [i := Running (take (Suc (length ops)) (fst (entry_call cfg ces prompts i)))] \<rparr>"
  by (auto split: if_splits task.splits)

lemma batch_step_Finish:
  "batch_step cfg ces prompts (Finish i) s = Some s' \<Longrightarrow>
   \<exists>ops r. i < length (slots s) \<and> slots s ! i = Running ops \<and>
     \<not> length ops < length (fst (entry_call cfg ces prompts i)) \<and>
     snd (entry_call cfg ces prompts i) = Some r \<and>
     s' = s\<lparr> permits := permits s + 1, slots := (slots s)[i := Done ops r] \<rparr>"
  by (auto split: if_splits task.splits option.splits)

lemma batch_step_permits:
  assumes st: "batch_step cfg ces prompts e s = Some s'"
  shows "permits s' + in_flight s' = permits s + in_flight s \<and>
         length (slots s') = length (slots s)"
proof (cases e)
  case (Acquire i)
  from batch_step_Acquire[OF st[unfolded Acquire]]
  have c: "i < length (slots s)" "slots s ! i = Waiting" "0 < permits s"
    and s': "s' = s\<lparr> permits := permits s - 1, slots := (slots s)[i := Running []] \<rparr>"
    by auto
  from length_filter_update[OF c(1), of is_running "Running []"] c(2)
  have "length (filter is_running ((slots s)[i := Running []])) =
        length (filter is_running (slots s)) + 1"
    by simp
  with c s' show ?thesis by (simp add: in_flight_def)
next
  case (Advance i)
  from batch_step_Advance[OF st[unfolded Advance]]
  obtain ops where c: "i < length (slots s)" "slots s ! i = Running ops"
    and s': "s' = s\<lparr> slots := (slots s)
             [i := Running (take (Suc (length ops)) (fst (entry_call cfg ces prompts i)))] \<rparr>"
    by (elim exE conjE)
  from length_filter_update[OF c(1), of is_running
         "Running (take (Suc (length ops)) (fst (entry_call cfg ces prompts i)))"] c(2)
  have "length (filter is_running ((slots s)
          [i := Running (take (Suc (length ops)) (fst (entry_call cfg ces prompts i)))])) =
        length (filter is_running (slots s))"
    by simp
  with c s' show ?thesis by (simp add: in_flight_def)
next
  case (Finish i)
  from batch_step_Finish[OF st[unfolded Finish]]
  obtain ops r where c: "i < length (slots s)" "slots s ! i = Running ops"
    and s': "s' = s\<lparr> permits := permits s + 1, slots := (slots s)[i := Done ops r] \<rparr>"
    by (elim exE conjE)
  from length_filter_update[OF c(1), of is_running "Done ops r"] c(2)
  have "length (filter is_running ((slots s)[i := Done ops r])) + 1 =
        length (filter is_running (slots s))"
    by simp
  with c s' show ?thesis by (simp add: in_flight_def)
qed

lemma batch_run_permits:
  "batch_run cfg ces prompts evs s = Some s' \<Longrightarrow>
   permits s' + in_flight s' = permits s + in_flight s \<and> length (slots s') = length (slots s)"
proof (induction evs arbitrary: s)
  case Nil
  then show ?case by simp
next
  case (Cons e es)
  then obtain s1 where s1: "batch_step cfg ces prompts e s = Some s1"
    and r: "batch_run cfg ces prompts es s1 = Some s'"
    by (auto split: option.splits)
  from Cons.IH[OF r] batch_step_permits[OF s1] show ?case by simp
qed

lemma batch_init_state:
  "batch_init cfg prompts mc = Inr s0 \<Longrightarrow>
   int (permits s0) = effective_max_concurrent cfg mc \<and> in_flight s0 = 0 \<and>
   slots s0 = replicate (length prompts) Waiting"
  by (auto simp: batch_init_def semaphore_new_def in_flight_def split: if_splits)

lemma batch_step_slot_ok:
  assumes st: "batch_step cfg ces prompts e s = Some s'"
    and ok: "slot_ok cfg ces prompts (slots s)"
  shows "slot_ok cfg ces prompts (slots s')"
proof (cases e)
  case (Acquire i)
  from batch_step_Acquire[OF st[unfolded Acquire]]
  have c: "i < length (slots s)"
    and s': "s' = s\<lparr> permits := permits s - 1, slots := (slots s)[i := Running []] \<rparr>"
    by auto
  from ok c show ?thesis
    unfolding s' slot_ok_def by (auto simp add: nth_list_update split: if_splits)
next
  case (Advance i)
  from batch_step_Advance[OF st[unfolded Advance]]
  obtain ops where c: "i < length (slots s)" "slots s ! i = Running ops"
    "length ops < length (fst (entry_call cfg ces prompts i))"
    and s': "s' = s\<lparr> slots := (slots s)
             [i := Running (take (Suc (length ops)) (fst (entry_call cfg ces prompts i)))] \<rparr>"
    by (elim exE conjE)
  from c(3) have "length (take (Suc (length ops)) (fst (entry_call cfg ces prompts i))) =
      Suc (length ops)"
    by simp
  with ok c(1) show ?thesis
    unfolding s' slot_ok_def by (auto simp add: nth_list_update split: if_splits)
next
  case (Finish i)
  from batch_step_Finish[OF st[unfolded Finish]]
  obtain ops r where c: "i < length (slots s)" "slots s ! i = Running ops"
    "\<not> length ops < length (fst (entry_call cfg ces prompts i))"
    "snd (entry_call cfg ces prompts i) = Some r"
    and s': "s' = s\<lparr> permits := permits s + 1, slots := (slots s)[i := Done ops r] \<rparr>"
    by (elim exE conjE)
  from ok c(1,2) have "ops = take (length ops) (fst (entry_call cfg ces prompts i))"
    by (simp add: slot_ok_def)
  with c(3) have full: "ops = fst (entry_call cfg ces prompts i)" by simp
  with ok c(1,4) show ?thesis
    unfolding s' slot_ok_def by (auto simp add: nth_list_update split: if_splits)
qed

lemma batch_run_slot_ok:
  "batch_run cfg ces prompts evs s = Some s' \<Longrightarrow> slot_ok cfg ces prompts (slots s) \<Longrightarrow>
   slot_ok cfg ces prompts (slots s')"
proof (induction evs arbitrary: s)
  case Nil
  then show ?case by simp
next
  case (Cons e es)
  then obtain s1 where s1: "batch_step cfg ces prompts e s = Some s1"
    and r: "batch_run cfg ces prompts es s1 = Some s'"
    by (auto split: option.splits)
  from Cons.IH[OF r batch_step_slot_ok[OF s1 Cons.prems(2)]] show ?case .
qed

lemma slot_ok_init: "slot_ok cfg ces prompts (replicate n Waiting)"
  by (simp add: slot_ok_def)

lemma entry_trace_length: "length (fst (entry_call cfg ces prompts i)) \<le> 3"
  by (simp add: entry_call_def execute_trace_length)

lemma live_le_in_flight:
  assumes ok: "slot_ok cfg ces prompts (slots s)"
    and ta: "timer_accepts (default_timeout (claude cfg))"
  shows "live_processes s \<le> in_flight s"
  unfolding live_processes_def in_flight_def
proof (rule length_filter_mono, rule ballI, rule impI)
  fix x assume x: "x \<in> set (slots s)" and al: "task_alive x"
  from x obtain i where i: "i < length (slots s)" "slots s ! i = x"
    by (auto simp add: in_set_conv_nth)
  show "is_running x"
  proof (cases x)
    case Waiting
    with al show ?thesis by simp
  next
    case (Running ops)
    then show ?thesis by simp
  next
    case (Done ops r)
    with ok i have f: "ops = fst (entry_call cfg ces prompts i)"
      and r: "snd (entry_call cfg ces prompts i) = Some r"
      by (auto simp add: slot_ok_def)
    have "timer_accepts (effective_timeout cfg None)"
      using ta by (simp add: effective_timeout_def)
    from execute_returned_no_process[OF this r[unfolded entry_call_def]] f
    have "\<not> proc_alive ops" by (simp add: entry_call_def)
    with al Done show ?thesis by simp
  qed
qed

text \<open>
  Claim C1, as amended. The bound that \<open>execute_batch\<close> enforces is the effective one: the
  \<open>max_concurrent\<close> argument when it is given and not zero, the configured default otherwise
  (an explicit \<open>0\<close> is replaced by the default). Whatever the event loop does, in every
  state the batch can reach the number of calls of \<open>execute\<close> in flight is at most that
  bound; and when the timer accepts the configured default timeout, so is the number of
  processes that the batch has spawned and not seen end. A negative effective bound is
  refused by the semaphore constructor before any task exists (\<open>batch_init_negative\<close>).
\<close>

theorem execute_batch_in_flight_bound:
  assumes "batch_init cfg prompts mc = Inr s0"
    and "batch_run cfg ces prompts evs s0 = Some s"
  shows "int (in_flight s) \<le> effective_max_concurrent cfg mc \<and>
         (timer_accepts (default_timeout (claude cfg)) \<longrightarrow>
            int (live_processes s) \<le> effective_max_concurrent cfg mc)"
proof -
  from batch_init_state[OF assms(1)] batch_run_permits[OF assms(2)]
  have b: "int (in_flight s) \<le> effective_max_concurrent cfg mc" by linarith
  from batch_init_state[OF assms(1)] have "slot_ok cfg ces prompts (slots s0)"
    by (simp add: slot_ok_init)
  from batch_run_slot_ok[OF assms(2) this] have ok: "slot_ok cfg ces prompts (slots s)" .
  show ?thesis
  proof (rule conjI[OF b], rule impI)
    assume "timer_accepts (default_timeout (claude cfg))"
    from live_le_in_flight[OF ok this] b
    show "int (live_processes s) \<le> effective_max_concurrent cfg mc" by linarith
  qed
qed

lemma batch_step_pending:
  assumes st: "batch_step cfg ces prompts e s = Some s'"
  shows "pending s' < pending s"
proof (cases e)
  case (Acquire i)
  from batch_step_Acquire[OF st[unfolded Acquire]]
  have c: "i < length (slots s)" "slots s ! i = Waiting"
    and s': "s' = s\<lparr> permits := permits s - 1, slots := (slots s)[i := Running []] \<rparr>"
    by auto
  from sum_list_map_update[OF c(1), of weight "Running []"] c(2) s'
  show ?thesis by (simp add: pending_def)
next
  case (Advance i)
  from batch_step_Advance[OF st[unfolded Advance]]
  obtain ops where c: "i < length (slots s)" "slots s ! i = Running ops"
    "length ops < length (fst (entry_call cfg ces prompts i))"
    and s': "s' = s\<lparr> slots := (slots s)
             [i := Running (take (Suc (length ops)) (fst (entry_call cfg ces prompts i)))] \<rparr>"
    by (elim exE conjE)
  from c(3) entry_trace_length[of cfg ces prompts i] have l: "length ops < 3" by linarith
  from c(3) have "length (take (Suc (length ops)) (fst (entry_call cfg ces prompts i))) =
      Suc (length ops)"
    by simp
  with sum_list_map_update[OF c(1), of weight
         "Running (take (Suc (length ops)) (fst (entry_call cfg ces prompts i)))"] c(2) s' l
  show ?thesis by (simp add: pending_def)
next
  case (Finish i)
  from batch_step_Finish[OF st[unfolded Finish]]
  obtain ops r where c: "i < length (slots s)" "slots s ! i = Running ops"
    and s': "s' = s\<lparr> permits := permits s + 1, slots := (slots s)[i := Done ops r] \<rparr>"
    by (elim exE conjE)
  from sum_list_map_update[OF c(1), of weight "Done ops r"] c(2) s'
  show ?thesis by (simp add: pending_def)
qed

lemma batch_run_pending:
  "batch_run cfg ces prompts evs s = Some s' \<Longrightarrow> pending s' + length evs \<le> pending s"
proof (induction evs arbitrary: s)
  case Nil
  then show ?case by simp
next
  case (Cons e es)
  then obtain s1 where s1: "batch_step cfg ces prompts e s = Some s1"
    and r: "batch_run cfg ces prompts es s1 = Some s'"
    by (auto split: option.splits)
  from Cons.IH[OF r] batch_step_pending[OF s1] show ?case by simp
qed

lemma pending_init: "pending \<lparr> permits = n, slots = replicate m Waiting \<rparr> = 5 * m"
  by (induction m) (simp_all add: pending_def)

lemma those_map_Some:
  "those (map f xs) = Some ys \<Longrightarrow>
   length ys = length xs \<and> (\<forall>i < length xs. f (xs ! i) = Some (ys ! i))"
proof (induction xs arbitrary: ys)
  case Nil
  then show ?case by simp
next
  case (Cons x xs)
  then obtain y ys' where y: "f x = Some y" and t: "those (map f xs) = Some ys'"
    and ys: "ys = y # ys'"
    by (auto split: option.splits)
  from Cons.IH[OF t] y ys show ?case by (auto simp: nth_Cons split: nat.splits)
qed

lemma those_map_total:
  "\<forall>x \<in> set xs. f x \<noteq> None \<Longrightarrow> \<exists>ys. those (map f xs) = Some ys"
  by (induction xs) (auto split: option.splits)

lemma gather_positional:
  assumes ok: "slot_ok cfg ces prompts (slots s)" and g: "gather s = Some rs"
  shows "length rs = length (slots s) \<and>
         (\<forall>i < length (slots s). snd (entry_call cfg ces prompts i) = Some (rs ! i))"
proof -
  from those_map_Some[OF g[unfolded gather_def]]
  have len: "length rs = length (slots s)"
    and nth: "\<And>i. i < length (slots s) \<Longrightarrow> task_outcome (slots s ! i) = Some (rs ! i)"
    by auto
  have "\<forall>i < length (slots s). snd (entry_call cfg ces prompts i) = Some (rs ! i)"
  proof (rule allI, rule impI)
    fix i assume i: "i < length (slots s)"
    from nth[OF i] obtain ops where "slots s ! i = Done ops (rs ! i)"
      by (cases "slots s ! i") auto
    with ok i show "snd (entry_call cfg ces prompts i) = Some (rs ! i)"
      by (auto simp add: slot_ok_def)
  qed
  with len show ?thesis by simp
qed

text \<open>While \<open>gather\<close> cannot return yet, some task can take a step, provided the semaphore
  was built with a permit and every call of \<open>execute\<close> returns or raises.\<close>

lemma batch_enabled:
  assumes ret: "\<forall>i < length (slots s). snd (entry_call cfg ces prompts i) \<noteq> None"
    and inv: "0 < permits s + in_flight s"
    and g: "gather s = None"
  shows "\<exists>e s1. batch_step cfg ces prompts e s = Some s1"
proof (cases "0 < in_flight s")
  case True
  from filter_pos_nth[OF True[unfolded in_flight_def]]
  obtain i where i: "i < length (slots s)" and run: "is_running (slots s ! i)"
    by (elim exE conjE)
  from run obtain ops where ops: "slots s ! i = Running ops"
    by (cases "slots s ! i") auto
  show ?thesis
  proof (cases "length ops < length (fst (entry_call cfg ces prompts i))")
    case True
    with i ops have "batch_step cfg ces prompts (Advance i) s =
      Some (s\<lparr> slots := (slots s)
             [i := Running (take (Suc (length ops)) (fst (entry_call cfg ces prompts i)))] \<rparr>)"
      by simp
    then show ?thesis by (intro exI)
  next
    case False
    from ret i obtain r where r: "snd (entry_call cfg ces prompts i) = Some r" by auto
    with i ops False have "batch_step cfg ces prompts (Finish i) s =
      Some (s\<lparr> permits := permits s + 1, slots := (slots s)[i := Done ops r] \<rparr>)"
      by simp
    then show ?thesis by (intro exI)
  qed
next
  case noR: False
  with inv have p: "0 < permits s" by simp
  from noR have nr: "\<forall>t \<in> set (slots s). \<not> is_running t"
    by (simp add: in_flight_def filter_empty_conv)
  have "\<exists>t \<in> set (slots s). task_outcome t = None"
  proof (rule ccontr)
    assume "\<not> (\<exists>t \<in> set (slots s). task_outcome t = None)"
    then have "\<forall>t \<in> set (slots s). task_outcome t \<noteq> None" by simp
    from those_map_total[OF this] g show False by (simp add: gather_def)
  qed
  then obtain t where t: "t \<in> set (slots s)" "task_outcome t = None" by (elim bexE)
  with nr have "t = Waiting" by (cases t) auto
  with t obtain i where i: "i < length (slots s)" "slots s ! i = Waiting"
    by (auto simp add: in_set_conv_nth)
  with p have "batch_step cfg ces prompts (Acquire i) s =
      Some (s\<lparr> permits := permits s - 1, slots := (slots s)[i := Running []] \<rparr>)"
    by simp
  then show ?thesis by (intro exI)
qed

lemma batch_progress:
  "\<forall>i < length (slots s). snd (entry_call cfg ces prompts i) \<noteq> None \<Longrightarrow>
   0 < permits s + in_flight s \<Longrightarrow>
   \<exists>evs s' rs. batch_run cfg ces prompts evs s = Some s' \<and> gather s' = Some rs"
proof (induction "pending s" arbitrary: s rule: less_induct)
  case less
  show ?case
  proof (cases "gather s")
    case (Some rs)
    have run: "batch_run cfg ces prompts [] s = Some s" by simp
    show ?thesis
      by (rule exI[of _ "[]"], rule exI[of _ s], rule exI[of _ rs], rule conjI[OF run Some])
  next
    case None
    from batch_enabled[OF less.prems(1) less.prems(2) None]
    obtain e s1 where st: "batch_step cfg ces prompts e s = Some s1" by (elim exE)
    from batch_step_permits[OF st] less.prems
    have ret1: "\<forall>i < length (slots s1). snd (entry_call cfg ces prompts i) \<noteq> None"
      and inv1: "0 < permits s1 + in_flight s1"
      by simp_all
    from less.hyps[OF batch_step_pending[OF st] ret1 inv1]
    obtain evs s' rs where run: "batch_run cfg ces prompts evs s1 = Some s'"
      and g: "gather s' = Some rs"
      by (elim exE conjE)
    from st run have run': "batch_run cfg ces prompts (e # evs) s = Some s'" by simp
    show ?thesis
      by (rule exI[of _ "e # evs"], rule exI[of _ s'], rule exI[of _ rs], rule conjI[OF run' g])
  qed
qed

lemma batch_init_positive:
  "0 < effective_max_concurrent cfg mc \<Longrightarrow>
   batch_init cfg prompts mc =
     Inr \<lparr> permits = nat (effective_max_concurrent cfg mc),
           slots = replicate (length prompts) Waiting \<rparr>"
  by (simp add: batch_init_def semaphore_new_def)

lemma batch_reachable:
  assumes pos: "0 < effective_max_concurrent cfg mc"
    and ret: "\<forall>i < length prompts.
        snd (execute cfg (ces i) (fst (prompts ! i)) (snd (prompts ! i)) None None) \<noteq> None"
    and s0: "batch_init cfg prompts mc = Inr s0"
    and run: "batch_run cfg ces prompts evs s0 = Some s"
  shows "length evs \<le> 5 * length prompts \<and>
     (\<forall>rs. gather s = Some rs \<longrightarrow>
        length rs = length prompts \<and>
        (\<forall>i < length prompts.
           snd (execute cfg (ces i) (fst (prompts ! i)) (snd (prompts ! i)) None None) =
             Some (rs ! i) \<and>
           (\<forall>r. rs ! i = Inr r \<longrightarrow>
              command r = join_sp [cli_path (claude cfg), ''-p'', fst (prompts ! i)] \<and>
              result_workspace r = snd (prompts ! i)))) \<and>
     (gather s = None \<longrightarrow> (\<exists>e s1. batch_step cfg ces prompts e s = Some s1)) \<and>
     (\<exists>evs' s' rs. batch_run cfg ces prompts evs' s = Some s' \<and> gather s' = Some rs)"
proof -
  from batch_init_state[OF s0] have init: "int (permits s0) = effective_max_concurrent cfg mc"
    "in_flight s0 = 0" "slots s0 = replicate (length prompts) Waiting" by auto
  have ok0: "slot_ok cfg ces prompts (slots s0)" using init(3) by (simp add: slot_ok_init)
  from batch_run_permits[OF run] init pos
  have inv: "0 < permits s + in_flight s" and len: "length (slots s) = length prompts" by auto
  from batch_run_slot_ok[OF run ok0] have ok: "slot_ok cfg ces prompts (slots s)" .
  from ret len have ret': "\<forall>i < length (slots s). snd (entry_call cfg ces prompts i) \<noteq> None"
    by (simp add: entry_call_def)
  have "pending s0 = 5 * length prompts"
    using init(3) pending_init[of "permits s0" "length prompts"] by (simp add: pending_def)
  with batch_run_pending[OF run] have a: "length evs \<le> 5 * length prompts" by linarith
  have b: "\<forall>rs. gather s = Some rs \<longrightarrow>
        length rs = length prompts \<and>
        (\<forall>i < length prompts.
           snd (execute cfg (ces i) (fst (prompts ! i)) (snd (prompts ! i)) None None) =
             Some (rs ! i) \<and>
           (\<forall>r. rs ! i = Inr r \<longrightarrow>
              command r = join_sp [cli_path (claude cfg), ''-p'', fst (prompts ! i)] \<and>
              result_workspace r = snd (prompts ! i)))"
  proof (rule allI, rule impI)
    fix rs assume g: "gather s = Some rs"
    from gather_positional[OF ok g] len
    have l: "length rs = length prompts"
      and p: "\<And>i. i < length prompts \<Longrightarrow>
        snd (execute cfg (ces i) (fst (prompts ! i)) (snd (prompts ! i)) None None) =
          Some (rs ! i)"
      by (simp_all add: entry_call_def)
    have "\<forall>i < length prompts.
           snd (execute cfg (ces i) (fst (prompts ! i)) (snd (prompts ! i)) None None) =
             Some (rs ! i) \<and>
           (\<forall>r. rs ! i = Inr r \<longrightarrow>
              command r = join_sp [cli_path (claude cfg), ''-p'', fst (prompts ! i)] \<and>
              result_workspace r = snd (prompts ! i))"
    proof (rule allI, rule impI, rule conjI)
      fix i assume i: "i < length prompts"
      show "snd (execute cfg (ces i) (fst (prompts ! i)) (snd (prompts ! i)) None None) =
             Some (rs ! i)" by (rule p[OF i])
      show "\<forall>r. rs ! i = Inr r \<longrightarrow>
              command r = join_sp [cli_path (claude cfg), ''-p'', fst (prompts ! i)] \<and>
              result_workspace r = snd (prompts ! i)"
      proof (rule allI, rule impI)
        fix r assume "rs ! i = Inr r"
        with p[OF i]
        have "snd (execute cfg (ces i) (fst (prompts ! i)) (snd (prompts ! i)) None None) =
             Some (Inr r)" by simp
        from execute_result_carries_call[OF this]
        show "command r = join_sp [cli_path (claude cfg), ''-p'', fst (prompts ! i)] \<and>
              result_workspace r = snd (prompts ! i)" .
      qed
    qed
    with l show "length rs = length prompts \<and>
        (\<forall>i < length prompts.
           snd (execute cfg (ces i) (fst (prompts ! i)) (snd (prompts ! i)) None None) =
             Some (rs ! i) \<and>
           (\<forall>r. rs ! i = Inr r \<longrightarrow>
              command r = join_sp [cli_path (claude cfg), ''-p'', fst (prompts ! i)] \<and>
              result_workspace r = snd (prompts ! i)))" by (rule conjI)
  qed
  have c: "gather s = None \<longrightarrow> (\<exists>e s1. batch_step cfg ces prompts e s = Some s1)"
    using batch_enabled[OF ret' inv] by (rule impI)
  have d: "\<exists>evs' s' rs. batch_run cfg ces prompts evs' s = Some s' \<and> gather s' = Some rs"
    by (rule batch_progress[OF ret' inv])
  from a b c d show ?thesis by (intro conjI)
qed

text \<open>
  Claim C3, as amended. When the effective bound is at least one and every call of
  \<open>execute\<close> in the batch returns or raises, \<open>execute_batch\<close> builds its semaphore without
  raising. Every run of the batch has at most five steps per entry; in every state the
  batch can reach, whatever entries have already raised, some task can still take a step
  unless \<open>gather\<close> can return, and the batch can run to the end. Whenever \<open>gather\<close> returns
  it returns one slot per entry, in the order of the input list, slot \<open>i\<close> holding the
  exception (\<open>Inl\<close>) or the result (\<open>Inr\<close>) of the \<open>execute\<close> of the prompt and the workspace
  of entry \<open>i\<close>, independently of the order in which the tasks finished; a result names
  the command built from that prompt, and that workspace.
\<close>

theorem execute_batch_results_positional:
  assumes "0 < effective_max_concurrent cfg mc"
    and "\<forall>i < length prompts.
        snd (execute cfg (ces i) (fst (prompts ! i)) (snd (prompts ! i)) None None) \<noteq> None"
  shows "\<exists>s0. batch_init cfg prompts mc = Inr s0 \<and>
     (\<forall>evs s. batch_run cfg ces prompts evs s0 = Some s \<longrightarrow>
        length evs \<le> 5 * length prompts \<and>
        (\<forall>rs. gather s = Some rs \<longrightarrow>
           length rs = length prompts \<and>
           (\<forall>i < length prompts.
              snd (execute cfg (ces i) (fst (prompts ! i)) (snd (prompts ! i)) None None) =
                Some (rs ! i) \<and>
              (\<forall>r. rs ! i = Inr r \<longrightarrow>
                 command r = join_sp [cli_path (claude cfg), ''-p'', fst (prompts ! i)] \<and>
                 result_workspace r = snd (prompts ! i)))) \<and>
        (gather s = None \<longrightarrow> (\<exists>e s1. batch_step cfg ces prompts e s = Some s1)) \<and>
        (\<exists>evs' s' rs. batch_run cfg ces prompts evs' s = Some s' \<and> gather s' = Some rs))"
proof -
  note s0 = batch_init_positive[OF assms(1), of prompts]
  show ?thesis
  proof (rule exI, rule conjI[OF s0], rule allI, rule allI, rule impI)
    fix evs s
    assume "batch_run cfg ces prompts evs
              \<lparr> permits = nat (effective_max_concurrent cfg mc),
                slots = replicate (length prompts) Waiting \<rparr> = Some s"
    from batch_reachable[OF assms s0 this]
    show "length evs \<le> 5 * length prompts \<and>
        (\<forall>rs. gather s = Some rs \<longrightarrow>
           length rs = length prompts \<and>
           (\<forall>i < length prompts.
              snd (execute cfg (ces i) (fst (prompts ! i)) (snd (prompts ! i)) None None) =
                Some (rs ! i) \<and>
              (\<forall>r. rs ! i = Inr r \<longrightarrow>
                 command r = join_sp [cli_path (claude cfg), ''-p'', fst (prompts ! i)] \<and>
                 result_workspace r = snd (prompts ! i)))) \<and>
        (gather s = None \<longrightarrow> (\<exists>e s1. batch_step cfg ces prompts e s = Some s1)) \<and>
        (\<exists>evs' s' rs. batch_run cfg ces prompts evs' s = Some s' \<and> gather s' = Some rs)" .
  qed
qed

lemma batch_init_negative:
  "effective_max_concurrent cfg mc < 0 \<Longrightarrow> \<exists>msg. batch_init cfg prompts mc = Inl (ValueError msg)"
  by (simp add: batch_init_def semaphore_new_def)

subsection \<open>The sample batch\<close>

lemma sample_entry_0:
  "entry_call sample_config sample_calls sample_prompts 0 =
     ([Spawn [''claude'', ''-p'', ''one''] (Some (Abs [''w'', ''a''])) Map.empty, Communicate],
      Some (Inr \<lparr> success = True, result_output = ''ok'', error = ''no'', exit_code = 0,
                  execution_time = 2, command = ''claude -p one'',
                  result_workspace = Some (Abs [''w'', ''a'']) \<rparr>))"
  by (simp add: entry_call_def execute_def Let_def wait_for_def communicate_within_def
        communicate_at_def timer_accepts_small effective_timeout_def build_command_def
        sample_config_def sample_calls_def sample_call_def sample_prompts_def exits_with_def)

lemma sample_entry_1:
  "entry_call sample_config sample_calls sample_prompts (Suc 0) =
     ([Spawn [''claude'', ''-p'', ''two''] None Map.empty, Kill, Reap],
      Some (Inl (ClaudeTimeoutError ''Claude execution timed out after 300s'' 300)))"
  by (simp add: entry_call_def execute_def Let_def wait_for_def communicate_within_def
        communicate_at_def wait_returns_def timer_accepts_small str_accepts_small
        effective_timeout_def build_command_def sample_config_def sample_calls_def
        sample_call_def sample_prompts_def never_exits_def str_int_def str_nat.simps
        digit_char_def)

lemma sample_entry_2:
  "entry_call sample_config sample_calls sample_prompts 2 =
     ([Spawn [''claude'', ''-p'', ''three''] (Some (Abs [''w'', ''c''])) Map.empty, Communicate],
      Some (Inr \<lparr> success = False, result_output = ''ok'', error = ''no'', exit_code = 2,
                  execution_time = 2, command = ''claude -p three'',
                  result_workspace = Some (Abs [''w'', ''c'']) \<rparr>))"
  by (simp add: entry_call_def execute_def Let_def wait_for_def communicate_within_def
        communicate_at_def timer_accepts_small effective_timeout_def build_command_def
        sample_config_def sample_calls_def sample_call_def sample_prompts_def exits_with_def)

lemma sample_entries_return:
  "\<forall>i < length sample_prompts.
     snd (execute sample_config (sample_calls i) (fst (sample_prompts ! i))
            (snd (sample_prompts ! i)) None None) \<noteq> None"
  by (simp add: execute_def Let_def wait_for_def communicate_within_def
        communicate_at_def wait_returns_def timer_accepts_small str_accepts_small
        effective_timeout_def sample_config_def sample_calls_def
        sample_call_def never_exits_def exits_with_def)

lemma huge_entry:
  "entry_call huge_timeout_config idle_calls prompts i =
     ([Spawn [''claude'', ''-p'', fst (prompts ! i)] (snd (prompts ! i)) Map.empty],
      Some (Inl (OverflowError ''int too large to convert to float'')))"
  by (simp add: entry_call_def execute_def Let_def wait_for_def timer_accepts_def
        effective_timeout_def build_command_def huge_timeout_config_def sample_config_def
        idle_calls_def sample_call_def)

text \<open>
  Claim C1 as stated fails. When the argument is \<open>0\<close> the stated bound is \<open>0\<close>, but the
  semaphore is built from the default \<open>3\<close> and one call is in flight after the first task
  has entered it. And when the configured default timeout is \<open>2 ^ 1024\<close>, each call spawns
  its process and then raises \<open>OverflowError\<close> without ending it: with the bound \<open>1\<close>, two
  processes that never exit by themselves are left running after the second call has
  spawned its process.
\<close>

theorem execute_batch_spec_bound_counterexample:
  "spec_concurrency_bound sample_config (Some 0) = 0 \<and>
   map_option in_flight
     (batch_after sample_config sample_calls sample_prompts (Some 0) [Acquire 0]) = Some 1 \<and>
   spec_concurrency_bound huge_timeout_config (Some 1) = 1 \<and>
   map_option live_processes
     (batch_after huge_timeout_config idle_calls sample_prompts (Some 1)
        [Acquire 0, Advance 0, Finish 0, Acquire 1, Advance 1]) = Some 2"
proof -
  have a: "spec_concurrency_bound sample_config (Some 0) = 0"
    "spec_concurrency_bound huge_timeout_config (Some 1) = 1"
    by (simp_all add: spec_concurrency_bound_def)
  have b: "map_option in_flight
     (batch_after sample_config sample_calls sample_prompts (Some 0) [Acquire 0]) = Some 1"
    by (simp add: batch_after_def batch_init_def semaphore_new_def
          effective_max_concurrent_def sample_config_def sample_prompts_def in_flight_def)
  have i: "batch_init huge_timeout_config sample_prompts (Some 1) =
     Inr \<lparr> permits = 1, slots = [Waiting, Waiting, Waiting] \<rparr>"
    by (simp add: batch_init_def semaphore_new_def effective_max_concurrent_def
          sample_prompts_def)
  have r: "batch_run huge_timeout_config idle_calls sample_prompts
        [Acquire 0, Advance 0, Finish 0, Acquire 1, Advance 1]
        \<lparr> permits = 1, slots = [Waiting, Waiting, Waiting] \<rparr> =
     Some \<lparr> permits = 0,
            slots = [Done [Spawn [''claude'', ''-p'', ''one''] (Some (Abs [''w'', ''a'']))
                             Map.empty]
                       (Inl (OverflowError ''int too large to convert to float'')),
                     Running [Spawn [''claude'', ''-p'', ''two''] None Map.empty],
                     Waiting] \<rparr>"
    by (simp add: huge_entry sample_prompts_def)
  have c: "map_option live_processes
     (batch_after huge_timeout_config idle_calls sample_prompts (Some 1)
        [Acquire 0, Advance 0, Finish 0, Acquire 1, Advance 1]) = Some 2"
    unfolding batch_after_def i sum.case r
    by (simp add: live_processes_def proc_alive_def)
  from a b c show ?thesis by simp
qed

text \<open>
  Claim C3 as stated fails: with the argument \<open>-1\<close> the semaphore constructor raises
  \<open>ValueError\<close>, so the batch call raises although no entry has failed.
\<close>

theorem execute_batch_negative_bound_counterexample:
  "batch_init sample_config sample_prompts (Some (- 1)) =
     Inl (ValueError ''Semaphore initial value must be >= 0'')"
  by (simp add: batch_init_def semaphore_new_def effective_max_concurrent_def)

theorem execute_batch_in_flight_bound_witness:
  "batch_init sample_config sample_prompts (Some 2) =
     Inr \<lparr> permits = 2, slots = [Waiting, Waiting, Waiting] \<rparr> \<and>
   batch_run sample_config sample_calls sample_prompts
     [Acquire 0, Advance 0, Acquire 2, Advance 2]
     \<lparr> permits = 2, slots = [Waiting, Waiting, Waiting] \<rparr> =
     Some \<lparr> permits = 0,
            slots = [Running [Spawn [''claude'', ''-p'', ''one''] (Some (Abs [''w'', ''a'']))
                                Map.empty],
                     Waiting,
                     Running [Spawn [''claude'', ''-p'', ''three''] (Some (Abs [''w'', ''c'']))
                                Map.empty]] \<rparr> \<and>
   timer_accepts (default_timeout (claude sample_config)) \<and>
   in_flight \<lparr> permits = 0,
            slots = [Running [Spawn [''claude'', ''-p'', ''one''] (Some (Abs [''w'', ''a'']))
                                Map.empty],
                     Waiting,
                     Running [Spawn [''claude'', ''-p'', ''three''] (Some (Abs [''w'', ''c'']))
                                Map.empty]] \<rparr> = 2 \<and>
   live_processes \<lparr> permits = 0,
            slots = [Running [Spawn [''claude'', ''-p'', ''one''] (Some (Abs [''w'', ''a'']))
                                Map.empty],
                     Waiting,
                     Running [Spawn [''claude'', ''-p'', ''three''] (Some (Abs [''w'', ''c'']))
                                Map.empty]] \<rparr> = 2 \<and>
   effective_max_concurrent sample_config (Some 2) = 2 \<and>
   batch_run sample_config sample_calls sample_prompts
     [Acquire 0, Advance 0, Acquire 2, Advance 2, Acquire 1]
     \<lparr> permits = 2, slots = [Waiting, Waiting, Waiting] \<rparr> = None"
proof -
  define busy where "busy = \<lparr> permits = 0,
            slots = [Running [Spawn [''claude'', ''-p'', ''one''] (Some (Abs [''w'', ''a'']))
                                Map.empty],
                     Waiting,
                     Running [Spawn [''claude'', ''-p'', ''three''] (Some (Abs [''w'', ''c'']))
                                Map.empty]] \<rparr>"
  have i: "batch_init sample_config sample_prompts (Some 2) =
     Inr \<lparr> permits = 2, slots = [Waiting, Waiting, Waiting] \<rparr>"
    by (simp add: batch_init_def semaphore_new_def effective_max_concurrent_def
          sample_prompts_def)
  have r: "batch_run sample_config sample_calls sample_prompts
     [Acquire 0, Advance 0, Acquire 2, Advance 2]
     \<lparr> permits = 2, slots = [Waiting, Waiting, Waiting] \<rparr> = Some busy"
    by (simp add: busy_def sample_entry_0 sample_entry_2)
  have n: "batch_run sample_config sample_calls sample_prompts
     [Acquire 0, Advance 0, Acquire 2, Advance 2, Acquire 1]
     \<lparr> permits = 2, slots = [Waiting, Waiting, Waiting] \<rparr> = None"
    by (simp add: sample_entry_0 sample_entry_2)
  have t: "timer_accepts (default_timeout (claude sample_config))"
    by (simp add: sample_config_def timer_accepts_small)
  have e: "effective_max_concurrent sample_config (Some 2) = 2"
    by (simp add: effective_max_concurrent_def)
  have f: "in_flight busy = 2" by (simp add: busy_def in_flight_def)
  have l: "live_processes busy = 2" by (simp add: busy_def live_processes_def proc_alive_def)
  from execute_batch_in_flight_bound[OF i r] t
  have "int (in_flight busy) \<le> effective_max_concurrent sample_config (Some 2) \<and>
        int (live_processes busy) \<le> effective_max_concurrent sample_config (Some 2)"
    by simp
  with i r n t e f l show ?thesis unfolding busy_def by simp
qed

theorem execute_batch_results_positional_witness:
  "0 < effective_max_concurrent sample_config (Some 2) \<and>
   (\<exists>s rs r0 r2.
      batch_after sample_config sample_calls sample_prompts (Some 2)
        [Acquire 1, Acquire 0, Advance 1, Advance 0, Advance 1, Advance 0, Advance 1,
         Finish 1, Finish 0, Acquire 2, Advance 2, Advance 2, Finish 2] = Some s \<and>
      gather s = Some rs \<and>
      rs = [Inr r0, Inl (ClaudeTimeoutError ''Claude execution timed out after 300s'' 300),
            Inr r2] \<and>
      command r0 = ''claude -p one'' \<and> result_workspace r0 = Some (Abs [''w'', ''a'']) \<and>
      success r0 \<and>
      command r2 = ''claude -p three'' \<and> result_workspace r2 = Some (Abs [''w'', ''c'']) \<and>
      \<not> success r2)"
proof -
  define r0 where "r0 = \<lparr> success = True, result_output = ''ok'', error = ''no'',
     exit_code = 0, execution_time = 2, command = ''claude -p one'',
     result_workspace = Some (Abs [''w'', ''a'']) \<rparr>"
  define r2 where "r2 = \<lparr> success = False, result_output = ''ok'', error = ''no'',
     exit_code = 2, execution_time = 2, command = ''claude -p three'',
     result_workspace = Some (Abs [''w'', ''c'']) \<rparr>"
  define rs where "rs = [Inr r0,
     Inl (ClaudeTimeoutError ''Claude execution timed out after 300s'' 300), Inr r2]"
  define s where "s = \<lparr> permits = 2,
     slots = [Done (fst (entry_call sample_config sample_calls sample_prompts 0)) (Inr r0),
              Done (fst (entry_call sample_config sample_calls sample_prompts (Suc 0)))
                (Inl (ClaudeTimeoutError ''Claude execution timed out after 300s'' 300)),
              Done (fst (entry_call sample_config sample_calls sample_prompts 2)) (Inr r2)] \<rparr>"
  have pos: "0 < effective_max_concurrent sample_config (Some 2)"
    by (simp add: effective_max_concurrent_def)
  have i: "batch_init sample_config sample_prompts (Some 2) =
     Inr \<lparr> permits = 2, slots = [Waiting, Waiting, Waiting] \<rparr>"
    by (simp add: batch_init_def semaphore_new_def effective_max_concurrent_def
          sample_prompts_def)
  have r: "batch_run sample_config sample_calls sample_prompts
        [Acquire 1, Acquire 0, Advance 1, Advance 0, Advance 1, Advance 0, Advance 1,
         Finish 1, Finish 0, Acquire 2, Advance 2, Advance 2, Finish 2]
        \<lparr> permits = 2, slots = [Waiting, Waiting, Waiting] \<rparr> = Some s"
    by (simp add: s_def r0_def r2_def sample_entry_0 sample_entry_1 sample_entry_2)
  have a: "batch_after sample_config sample_calls sample_prompts (Some 2)
        [Acquire 1, Acquire 0, Advance 1, Advance 0, Advance 1, Advance 0, Advance 1,
         Finish 1, Finish 0, Acquire 2, Advance 2, Advance 2, Finish 2] = Some s"
    unfolding batch_after_def i sum.case by (rule r)
  have g: "gather s = Some rs" by (simp add: s_def rs_def gather_def)
  from execute_batch_results_positional[OF pos sample_entries_return]
  obtain s0 where a0: "batch_init sample_config sample_prompts (Some 2) = Inr s0"
    and b: "\<forall>evs s. batch_run sample_config sample_calls sample_prompts evs s0 = Some s \<longrightarrow>
        length evs \<le> 5 * length sample_prompts \<and>
        (\<forall>rs. gather s = Some rs \<longrightarrow>
           length rs = length sample_prompts \<and>
           (\<forall>i < length sample_prompts.
              snd (execute sample_config (sample_calls i) (fst (sample_prompts ! i))
                     (snd (sample_prompts ! i)) None None) = Some (rs ! i) \<and>
              (\<forall>r. rs ! i = Inr r \<longrightarrow>
                 command r = join_sp [cli_path (claude sample_config), ''-p'',
                                      fst (sample_prompts ! i)] \<and>
                 result_workspace r = snd (sample_prompts ! i)))) \<and>
        (gather s = None \<longrightarrow>
           (\<exists>e s1. batch_step sample_config sample_calls sample_prompts e s = Some s1)) \<and>
        (\<exists>evs' s' rs. batch_run sample_config sample_calls sample_prompts evs' s = Some s' \<and>
           gather s' = Some rs)"
    by (elim exE conjE)
  from a0 i have s0eq: "s0 = \<lparr> permits = 2, slots = [Waiting, Waiting, Waiting] \<rparr>" by simp
  note c = b[unfolded s0eq, rule_format, OF r, THEN conjunct2, THEN conjunct1, rule_format, OF g,
             THEN conjunct2, rule_format]
  have l0: "0 < length sample_prompts" and l2: "2 < length sample_prompts"
    by (simp_all add: sample_prompts_def)
  have n0: "rs ! 0 = Inr r0" and n2: "rs ! 2 = Inr r2" by (simp_all add: rs_def)
  from c[OF l0, THEN conjunct2, rule_format, OF n0]
  have c0: "command r0 = ''claude -p one''" and w0: "result_workspace r0 = Some (Abs [''w'', ''a''])"
    by (simp_all add: sample_config_def sample_prompts_def)
  from c[OF l2, THEN conjunct2, rule_format, OF n2]
  have c2: "command r2 = ''claude -p three''"
    and w2: "result_workspace r2 = Some (Abs [''w'', ''c''])"
    by (simp_all add: sample_config_def sample_prompts_def)
  have s0': "success r0" and s2': "\<not> success r2" by (simp_all add: r0_def r2_def)
  show ?thesis
    apply (rule conjI[OF pos])
    apply (rule exI[of _ s])
    apply (rule exI[of _ rs])
    apply (rule exI[of _ r0])
    apply (rule exI[of _ r2])
    apply (rule conjI[OF a])
    apply (rule conjI[OF g])
    apply (rule conjI[OF rs_def])
    apply (rule conjI[OF c0])
    apply (rule conjI[OF w0])
    apply (rule conjI[OF s0'])
    apply (rule conjI[OF c2])
    apply (rule conjI[OF w2])
    apply (rule s2')
    done
qed

end
